theory Spec2Isabelle
  imports Main
begin

section \<open>Python values used by \<open>prompt_generator.py\<close>\<close>

subsection \<open>Strings\<close>

text \<open>
  A Python \<open>str\<close> is a sequence of Unicode code points, and \<open>len\<close> counts code points.
  A string is therefore modelled as a list of code points (natural numbers), not as a
  list of bytes. \<open>lit\<close> turns a literal of the source into that representation.
\<close>

type_synonym pystr = "nat list"

definition lit :: "string \<Rightarrow> pystr" where
  "lit s = map of_char s"

text \<open>
  The code points that Python's \<open>str.split()\<close> and \<open>str.strip()\<close> (both called without
  argument) treat as whitespace: U+0009..U+000D, U+001C..U+0020, U+0085, U+00A0, U+1680,
  U+2000..U+200A, U+2028, U+2029, U+202F, U+205F and U+3000.
\<close>

definition isspace :: "nat \<Rightarrow> bool" where
  "isspace c =
     ((9 \<le> c \<and> c \<le> 13) \<or> (28 \<le> c \<and> c \<le> 32) \<or> c = 133 \<or> c = 160 \<or>
      c = 5760 \<or> (8192 \<le> c \<and> c \<le> 8202) \<or> c = 8232 \<or> c = 8233 \<or>
      c = 8239 \<or> c = 8287 \<or> c = 12288)"

text \<open>
  \<open>s.split()\<close>: one scan over the string. \<open>w\<close> is the word read so far; a whitespace
  character closes it (and is dropped), runs of whitespace produce no empty words, and
  the end of the string closes the last word.
\<close>

fun split_scan :: "pystr \<Rightarrow> pystr \<Rightarrow> pystr list" where
  "split_scan w [] = (if w = [] then [] else [w])"
| "split_scan w (c # cs) =
     (if isspace c then (if w = [] then split_scan [] cs else w # split_scan [] cs)
      else split_scan (w @ [c]) cs)"

definition str_split :: "pystr \<Rightarrow> pystr list" where
  "str_split s = split_scan [] s"

text \<open>\<open>s.strip()\<close>: leading and trailing whitespace removed.\<close>

definition str_strip :: "pystr \<Rightarrow> pystr" where
  "str_strip s = rev (dropWhile isspace (rev (dropWhile isspace s)))"

subsection \<open>Whitespace-delimited tokens, as the specification words them\<close>

text \<open>
  The specification speaks of the ``whitespace-delimited tokens'' of a text. Read
  literally: every whitespace character is a delimiter, the text falls into the fields
  between consecutive delimiters, and the tokens are the fields that are not empty.
  This second definition is independent of \<open>split_scan\<close> and is compared with it below.
\<close>

fun ws_fields :: "pystr \<Rightarrow> pystr list" where
  "ws_fields [] = [[]]"
| "ws_fields (c # cs) =
     (if isspace c then [] # ws_fields cs
      else (case ws_fields cs of [] \<Rightarrow> [[c]] | f # fs \<Rightarrow> (c # f) # fs))"

definition ws_tokens :: "pystr \<Rightarrow> pystr list" where
  "ws_tokens s = filter (\<lambda>f. f \<noteq> []) (ws_fields s)"

subsection \<open>Dictionaries and exceptions\<close>

text \<open>
  A Python \<open>dict\<close> keeps its keys in insertion order, and the program depends on that
  order, so a dictionary is an association list. \<open>d[k] = v\<close> overwrites the value of a
  key that is present, in place, and appends a new key at the end.
\<close>

fun dict_set :: "('k \<times> 'v) list \<Rightarrow> 'k \<Rightarrow> 'v \<Rightarrow> ('k \<times> 'v) list" where
  "dict_set [] k v = [(k, v)]"
| "dict_set ((k', v') # d) k v =
     (if k' = k then (k', v) # d else (k', v') # dict_set d k v)"

text \<open>\<open>d.get(k)\<close>: \<open>None\<close> for a key that is absent.\<close>

definition dict_get :: "('k \<times> 'v) list \<Rightarrow> 'k \<Rightarrow> 'v option" where
  "dict_get d k = map_of d k"

text \<open>
  The exceptions that can reach the \<open>except Exception\<close> handler of the button: whatever
  a model backend raises (kept as its message), the \<open>ValueError\<close> of \<open>max\<close> on an empty
  iterable, the \<open>TypeError\<close> of comparing with \<open>None\<close>, and the \<open>KeyError\<close> of a
  subscript with an absent key.
\<close>

datatype py_exception =
    Backend_raised pystr
  | ValueError
  | TypeError
  | KeyError pystr

text \<open>
  \<open>max(xs, key=f)\<close>: the first element is the candidate; a later element replaces it
  only when its key is strictly greater, so among several maxima the first one in
  iteration order is returned. An empty iterable raises \<open>ValueError\<close>; a key that is
  \<open>None\<close> cannot be compared and raises \<open>TypeError\<close>.
\<close>

fun max_loop :: "('k \<Rightarrow> int option) \<Rightarrow> 'k \<Rightarrow> int option \<Rightarrow> 'k list \<Rightarrow> py_exception + 'k" where
  "max_loop key best best_val [] = Inr best"
| "max_loop key best best_val (k # ks) =
     (case key k of
        None \<Rightarrow> Inl TypeError
      | Some v \<Rightarrow>
          (case best_val of
             None \<Rightarrow> Inl TypeError
           | Some bv \<Rightarrow>
               (if v > bv then max_loop key k (Some v) ks
                else max_loop key best best_val ks)))"

definition py_max :: "'k list \<Rightarrow> ('k \<Rightarrow> int option) \<Rightarrow> py_exception + 'k" where
  "py_max xs key = (case xs of [] \<Rightarrow> Inl ValueError | k # ks \<Rightarrow> max_loop key k (key k) ks)"

section \<open>The model registry (lines 5--15)\<close>

text \<open>The dictionary literal \<open>models\<close>: display name to hub path, in source order.\<close>

definition models :: "(pystr \<times> pystr) list" where
  "models =
     dict_set (dict_set [] (lit ''DistilGPT-2'') (lit ''distilgpt2''))
       (lit ''GPT-Neo-125M'') (lit ''EleutherAI/gpt-neo-125M'')"

text \<open>
  Of a tokenizer the program reads and writes two attributes only. Both are \<open>None\<close>
  when the tokenizer does not define the token.
\<close>

record tokenizer =
  pad_token :: "pystr option"
  eos_token :: "pystr option"

text \<open>
  Line 10, the dictionary comprehension over \<open>models.items()\<close>.
  \<open>AutoTokenizer.from_pretrained\<close> is outside the repository and is a parameter; it
  returns a tokenizer or raises, and an exception ends the start-up.
\<close>

fun load_tokenizers ::
  "(pystr \<Rightarrow> py_exception + tokenizer) \<Rightarrow> (pystr \<times> pystr) list \<Rightarrow>
   (pystr \<times> tokenizer) list \<Rightarrow> py_exception + (pystr \<times> tokenizer) list" where
  "load_tokenizers from_pretrained [] acc = Inr acc"
| "load_tokenizers from_pretrained ((name, model_path) # rest) acc =
     (case from_pretrained model_path of
        Inl e \<Rightarrow> Inl e
      | Inr t \<Rightarrow> load_tokenizers from_pretrained rest (dict_set acc name t))"

text \<open>Lines 13--14, the body of the loop over \<open>model_tokenizers.values()\<close>.\<close>

definition ensure_pad_token :: "tokenizer \<Rightarrow> tokenizer" where
  "ensure_pad_token t = (if pad_token t = None then t\<lparr>pad_token := eos_token t\<rparr> else t)"

text \<open>Lines 10--14: the tokenizers as they stand once initialisation is over.\<close>

definition model_tokenizers ::
  "(pystr \<Rightarrow> py_exception + tokenizer) \<Rightarrow> (pystr \<times> pystr) list \<Rightarrow>
   py_exception + (pystr \<times> tokenizer) list" where
  "model_tokenizers from_pretrained reg =
     (case load_tokenizers from_pretrained reg [] of
        Inl e \<Rightarrow> Inl e
      | Inr d \<Rightarrow> Inr (map (\<lambda>(name, t). (name, ensure_pad_token t)) d))"

section \<open>Prompt generation (lines 17--39)\<close>

text \<open>
  Lines 18--23: the instruction text. The source builds it by successive \<open>+=\<close> on
  \<open>base_prompt\<close>; \<open>if condition:\<close> and \<open>if details:\<close> test the truth value of a string,
  which is false for the empty string only.
\<close>

definition base_prompt :: "pystr \<Rightarrow> pystr \<Rightarrow> pystr \<Rightarrow> pystr \<Rightarrow> pystr" where
  "base_prompt description modality condition details =
     (let p0 = lit ''Generate a '' @ modality @ lit '' scan of '' @ description
                 @ lit ''. Focus on the medical imaging context only.'';
          p1 = (if condition \<noteq> []
                then p0 @ lit '' Focus on capturing '' @ condition @ lit ''.''
                else p0);
          p2 = (if details \<noteq> []
                then p1 @ lit '' Include details such as '' @ details @ lit ''.''
                else p1)
      in p2 @ lit '' Avoid any extra information, references, or irrelevant content. Keep the prompt focused only on the image generation task.'')"

text \<open>
  Lines 25--38 (the look-up of the tokenizer and the model of \<open>model_name\<close>, the
  tokenizer call, the sampling \<open>model.generate\<close>, \<open>decode\<close>) run in the \<open>transformers\<close>
  library. They are a parameter: for one comparison run, a backend maps the model name,
  the instruction and \<open>max_length\<close> to the decoded text, or to the exception that is
  raised. Sampling makes the text differ between runs; within one run each model is
  called once, so a function describes the run. Line 39 strips the decoded text. The
  default \<open>max_length=100\<close> plays no part, since line 73 passes the argument.

  The first component of the result is a log that the program itself does not keep
  (ghost state): \<open>Template_built\<close> records one execution of lines 18--23,
  \<open>Backend_called\<close> one execution of lines 25--38 with its arguments.
\<close>

datatype event =
    Template_built pystr
  | Backend_called pystr pystr int

type_synonym backend = "pystr \<Rightarrow> pystr \<Rightarrow> int \<Rightarrow> py_exception + pystr"

definition generate_prompt_with_model ::
  "backend \<Rightarrow> pystr \<Rightarrow> pystr \<Rightarrow> pystr \<Rightarrow> pystr \<Rightarrow> pystr \<Rightarrow> int \<Rightarrow>
   event list \<times> (py_exception + pystr)" where
  "generate_prompt_with_model B model_name description modality condition details max_length =
     (let p = base_prompt description modality condition details
      in ([Template_built p, Backend_called model_name p max_length],
          (case B model_name p max_length of
             Inl e \<Rightarrow> Inl e
           | Inr generated_text \<Rightarrow> Inr (str_strip generated_text))))"

section \<open>Scoring (lines 41--48)\<close>

definition evaluate_prompt :: "pystr \<Rightarrow> int \<times> int \<times> int" where
  "evaluate_prompt prompt =
     (let length_score = int (length (str_split prompt));
          clarity_score = int (length (filter (\<lambda>word. length word > 3) (str_split prompt)));
          final_score = length_score + clarity_score
      in (length_score, clarity_score, final_score))"

section \<open>The comparison run (lines 66--82)\<close>

text \<open>The values of the input widgets (lines 57--62).\<close>

record request =
  rq_description :: pystr
  rq_modality :: pystr
  rq_condition :: pystr
  rq_details :: pystr
  rq_max_length :: int

text \<open>The four collections the loop fills (lines 67--70).\<close>

record run_state =
  results :: "(pystr \<times> pystr) list"
  model_scores :: "(pystr \<times> int) list"
  length_scores :: "int list"
  clarity_scores :: "int list"

text \<open>Lines 74--78: what one iteration stores once the model has answered.\<close>

definition store_result :: "pystr \<Rightarrow> pystr \<Rightarrow> run_state \<Rightarrow> run_state" where
  "store_result model_name output st =
     (case evaluate_prompt output of
        (length_score, clarity_score, final_score) \<Rightarrow>
          st\<lparr>results := dict_set (results st) model_name output,
             model_scores := dict_set (model_scores st) model_name final_score,
             length_scores := length_scores st @ [length_score],
             clarity_scores := clarity_scores st @ [clarity_score]\<rparr>)"

text \<open>
  Lines 72--78, over the keys still to visit. An exception of
  \<open>generate_prompt_with_model\<close> leaves the loop at once.
\<close>

fun generation_loop ::
  "backend \<Rightarrow> request \<Rightarrow> pystr list \<Rightarrow> run_state \<Rightarrow> event list \<times> (py_exception + run_state)" where
  "generation_loop B rq [] st = ([], Inr st)"
| "generation_loop B rq (model_name # rest) st =
     (case generate_prompt_with_model B model_name (rq_description rq) (rq_modality rq)
             (rq_condition rq) (rq_details rq) (rq_max_length rq) of
        (ev, Inl e) \<Rightarrow> (ev, Inl e)
      | (ev, Inr output) \<Rightarrow>
          (case generation_loop B rq rest (store_result model_name output st) of
             (ev', r) \<Rightarrow> (ev @ ev', r)))"

text \<open>What the \<open>try\<close> block has computed when it reaches line 83.\<close>

record comparison =
  run :: run_state
  best_model :: pystr
  best_prompt :: pystr

text \<open>
  Lines 67--82. The global \<open>models\<close> is the parameter \<open>reg\<close>. The result is the ghost
  log together with either the exception that the handler of line 117 receives, or the
  comparison.
\<close>

definition compare ::
  "(pystr \<times> pystr) list \<Rightarrow> backend \<Rightarrow> request \<Rightarrow> event list \<times> (py_exception + comparison)" where
  "compare reg B rq =
     (case generation_loop B rq (map fst reg)
             \<lparr>results = [], model_scores = [], length_scores = [], clarity_scores = []\<rparr> of
        (ev, Inl e) \<Rightarrow> (ev, Inl e)
      | (ev, Inr st) \<Rightarrow>
          (case py_max (map fst (model_scores st)) (dict_get (model_scores st)) of
             Inl e \<Rightarrow> (ev, Inl e)
           | Inr bm \<Rightarrow>
               (case dict_get (results st) bm of
                  None \<Rightarrow> (ev, Inl (KeyError bm))
                | Some bp \<Rightarrow> (ev, Inr \<lparr>run = st, best_model = bm, best_prompt = bp\<rparr>))))"

section \<open>The comment on a score (lines 111--116)\<close>

definition comment :: "int \<Rightarrow> pystr" where
  "comment final_score =
     (if final_score < 150
      then lit ''**Comment:** The generated prompt could be improved by making it more specific and detailed.''
      else if final_score \<ge> 150 \<and> final_score < 200
      then lit ''**Comment:** The prompt is fairly descriptive, but it could benefit from additional details.''
      else lit ''**Comment:** The prompt is well-structured and highly descriptive.'')"

section \<open>Notions used to state the properties\<close>

text \<open>The instruction text of a request: lines 18--23 on the values of the widgets.\<close>

definition instruction :: "request \<Rightarrow> pystr" where
  "instruction rq =
     base_prompt (rq_description rq) (rq_modality rq) (rq_condition rq) (rq_details rq)"

text \<open>What the call of line 73 yields for one model: the stripped text, or the exception.\<close>

definition generated :: "backend \<Rightarrow> request \<Rightarrow> pystr \<Rightarrow> py_exception + pystr" where
  "generated B rq model_name =
     snd (generate_prompt_with_model B model_name (rq_description rq) (rq_modality rq)
            (rq_condition rq) (rq_details rq) (rq_max_length rq))"

text \<open>The final score of a text: the third component of \<open>evaluate_prompt\<close>.\<close>

definition final_score_of :: "pystr \<Rightarrow> int" where
  "final_score_of text = snd (snd (evaluate_prompt text))"

text \<open>
  Two readings of the ghost log: the instruction texts that were built, in order, and the
  backend calls (model name, instruction, \<open>max_length\<close>), in order.
\<close>

fun builds :: "event list \<Rightarrow> pystr list" where
  "builds [] = []"
| "builds (Template_built p # es) = p # builds es"
| "builds (Backend_called n p m # es) = builds es"

fun calls :: "event list \<Rightarrow> (pystr \<times> pystr \<times> int) list" where
  "calls [] = []"
| "calls (Template_built p # es) = calls es"
| "calls (Backend_called n p m # es) = (n, p, m) # calls es"

section \<open>Example inputs\<close>

text \<open>Concrete inputs on which the statements below are evaluated.\<close>

definition example_request :: request where
  "example_request =
     \<lparr>rq_description = lit ''human brain'', rq_modality = lit ''MRI'',
      rq_condition = [], rq_details = [], rq_max_length = 100\<rparr>"

text \<open>Both models answer, with texts of equal final score (6 and 6).\<close>

definition tie_backend :: backend where
  "tie_backend model_name p max_length =
     (if model_name = lit ''DistilGPT-2'' then Inr (lit '' Axial brain scan '')
      else Inr (lit ''A CT of the lungs''))"

text \<open>Two runs that raise the same exception, in different models.\<close>

definition fails_at_first :: backend where
  "fails_at_first model_name p max_length = Inl (Backend_raised (lit ''out of memory''))"

definition fails_at_second :: backend where
  "fails_at_second model_name p max_length =
     (if model_name = lit ''DistilGPT-2'' then Inr (lit ''Axial brain scan'')
      else Inl (Backend_raised (lit ''out of memory'')))"

text \<open>A loader whose tokenizers define an end-of-sequence token and no padding token.\<close>

definition example_from_pretrained :: "pystr \<Rightarrow> py_exception + tokenizer" where
  "example_from_pretrained model_path =
     Inr \<lparr>pad_token = None, eos_token = Some (lit ''<|endoftext|>'')\<rparr>"

section \<open>Auxiliary facts\<close>

subsection \<open>Splitting at whitespace\<close>

lemma ws_fields_not_Nil: "ws_fields s \<noteq> []"
  by (induction s) (auto split: list.splits)

lemma split_scan_ws_fields:
  "split_scan w s = filter (\<lambda>f. f \<noteq> []) ((w @ hd (ws_fields s)) # tl (ws_fields s))"
proof (induction s arbitrary: w)
  case Nil
  show ?case by simp
next
  case (Cons c cs)
  obtain f fs where ffs: "ws_fields cs = f # fs"
    using ws_fields_not_Nil [of cs] by (cases "ws_fields cs") auto
  show ?case
  proof (cases "isspace c")
    case True
    then show ?thesis using Cons.IH [of "[]"] ffs by simp
  next
    case False
    then show ?thesis using Cons.IH [of "w @ [c]"] ffs by simp
  qed
qed

lemma str_split_ws_tokens: "str_split s = ws_tokens s"
  using split_scan_ws_fields [of "[]" s] ws_fields_not_Nil [of s]
  by (cases "ws_fields s") (simp_all add: str_split_def ws_tokens_def)

lemma ws_fields_partition:
  "concat (ws_fields s) = filter (\<lambda>c. \<not> isspace c) s \<and>
   length (ws_fields s) = Suc (length (filter isspace s)) \<and>
   (\<forall>f\<in>set (ws_fields s). \<forall>c\<in>set f. \<not> isspace c)"
proof (induction s)
  case Nil
  show ?case by simp
next
  case (Cons c cs)
  obtain f fs where ffs: "ws_fields cs = f # fs"
    using ws_fields_not_Nil [of cs] by (cases "ws_fields cs") auto
  show ?case using Cons ffs by (cases "isspace c") auto
qed

subsection \<open>The generation loop\<close>

lemma gen_call:
  "generate_prompt_with_model B n (rq_description rq) (rq_modality rq) (rq_condition rq)
     (rq_details rq) (rq_max_length rq) =
   ([Template_built (instruction rq), Backend_called n (instruction rq) (rq_max_length rq)],
    generated B rq n)"
  by (simp add: generate_prompt_with_model_def generated_def instruction_def Let_def)

lemma generated_backend:
  "generated B rq n =
     (case B n (instruction rq) (rq_max_length rq) of
        Inl e \<Rightarrow> Inl e | Inr raw \<Rightarrow> Inr (str_strip raw))"
  by (simp add: generate_prompt_with_model_def generated_def instruction_def Let_def)

lemma loop_Cons_fail:
  "generated B rq n = Inl e \<Longrightarrow>
   generation_loop B rq (n # rest) st =
     ([Template_built (instruction rq), Backend_called n (instruction rq) (rq_max_length rq)], Inl e)"
  by (simp add: gen_call)

lemma loop_Cons_ok:
  "generated B rq n = Inr out \<Longrightarrow>
   generation_loop B rq (n # rest) st =
     ([Template_built (instruction rq), Backend_called n (instruction rq) (rq_max_length rq)]
        @ fst (generation_loop B rq rest (store_result n out st)),
      snd (generation_loop B rq rest (store_result n out st)))"
  by (simp add: gen_call split: prod.splits)

lemma loop_fail:
  "\<forall>n\<in>set pre. \<exists>t. generated B rq n = Inr t \<Longrightarrow> generated B rq m = Inl e \<Longrightarrow>
   generation_loop B rq (pre @ m # post) st =
     (concat (map (\<lambda>n. [Template_built (instruction rq),
                          Backend_called n (instruction rq) (rq_max_length rq)]) (pre @ [m])),
      Inl e)"
proof (induction pre arbitrary: st)
  case Nil
  then show ?case by (simp add: loop_Cons_fail del: generation_loop.simps)
next
  case (Cons n pre)
  from Cons.prems obtain t where t: "generated B rq n = Inr t" by auto
  have "generation_loop B rq (pre @ m # post) (store_result n t st) =
     (concat (map (\<lambda>n. [Template_built (instruction rq),
                          Backend_called n (instruction rq) (rq_max_length rq)]) (pre @ [m])),
      Inl e)"
    using Cons by simp
  then show ?case using loop_Cons_ok [OF t] by (simp del: generation_loop.simps)
qed

lemma loop_success:
  "list_all2 (\<lambda>n t. generated B rq n = Inr t) names outs \<Longrightarrow>
   generation_loop B rq names st =
     (concat (map (\<lambda>n. [Template_built (instruction rq),
                          Backend_called n (instruction rq) (rq_max_length rq)]) names),
      Inr (foldl (\<lambda>s (n, t). store_result n t s) st (zip names outs)))"
proof (induction names outs arbitrary: st rule: list_all2_induct)
  case Nil
  show ?case by simp
next
  case (Cons n names t outs)
  show ?case using loop_Cons_ok [OF Cons.hyps(1)] Cons.IH
    by (simp del: generation_loop.simps)
qed

lemma outs_exist:
  "\<forall>n\<in>set names. \<exists>t. generated B rq n = Inr t \<Longrightarrow>
   \<exists>outs. list_all2 (\<lambda>n t. generated B rq n = Inr t) names outs"
proof (induction names)
  case Nil
  show ?case by simp
next
  case (Cons n names)
  then obtain t outs where "generated B rq n = Inr t"
    and "list_all2 (\<lambda>n t. generated B rq n = Inr t) names outs" by auto
  then have "list_all2 (\<lambda>n t. generated B rq n = Inr t) (n # names) (t # outs)" by simp
  then show ?case by blast
qed

lemma dict_set_fresh: "k \<notin> fst ` set d \<Longrightarrow> dict_set d k v = d @ [(k, v)]"
  by (induction d) auto

lemma store_all:
  "length names = length outs \<Longrightarrow> distinct names \<Longrightarrow>
   set names \<inter> fst ` set (results st) = {} \<Longrightarrow>
   set names \<inter> fst ` set (model_scores st) = {} \<Longrightarrow>
   foldl (\<lambda>s (n, t). store_result n t s) st (zip names outs) =
     st\<lparr>results := results st @ zip names outs,
        model_scores := model_scores st @ zip names (map final_score_of outs),
        length_scores := length_scores st @ map (\<lambda>t. fst (evaluate_prompt t)) outs,
        clarity_scores := clarity_scores st @ map (\<lambda>t. fst (snd (evaluate_prompt t))) outs\<rparr>"
proof (induction names outs arbitrary: st rule: list_induct2)
  case Nil
  show ?case by simp
next
  case (Cons n names t outs)
  let ?st1 = "store_result n t st"
  have r1: "results ?st1 = results st @ [(n, t)]"
    using Cons.prems by (simp add: store_result_def dict_set_fresh split: prod.splits)
  have m1: "model_scores ?st1 = model_scores st @ [(n, final_score_of t)]"
    using Cons.prems by (simp add: store_result_def dict_set_fresh final_score_of_def split: prod.splits)
  have l1: "length_scores ?st1 = length_scores st @ [fst (evaluate_prompt t)]"
    by (simp add: store_result_def split: prod.splits)
  have c1: "clarity_scores ?st1 = clarity_scores st @ [fst (snd (evaluate_prompt t))]"
    by (simp add: store_result_def split: prod.splits)
  have more: "run_state.more ?st1 = run_state.more st"
    by (simp add: store_result_def split: prod.splits)
  have fresh: "set names \<inter> fst ` set (results ?st1) = {}" "set names \<inter> fst ` set (model_scores ?st1) = {}"
    using Cons.prems by (auto simp: r1 m1)
  have "distinct names" using Cons.prems by simp
  from Cons.IH [OF this fresh] show ?case
    by (simp add: r1 m1 l1 c1)
qed

subsection \<open>Selection of the maximum\<close>

lemma max_loop_first_max:
  "\<forall>k\<in>set ks. key k \<noteq> None \<Longrightarrow> key best = Some bv \<Longrightarrow>
   \<exists>r rv pre post. max_loop key best (Some bv) ks = Inr r \<and> key r = Some rv \<and>
      best # ks = pre @ r # post \<and>
      (\<forall>k\<in>set pre. \<exists>v. key k = Some v \<and> v < rv) \<and>
      (\<forall>k\<in>set post. \<exists>v. key k = Some v \<and> v \<le> rv)"
proof (induction ks arbitrary: best bv)
  case Nil
  then have "max_loop key best (Some bv) [] = Inr best \<and> key best = Some bv \<and>
      best # [] = [] @ best # [] \<and>
      (\<forall>k\<in>set []. \<exists>v. key k = Some v \<and> v < bv) \<and>
      (\<forall>k\<in>set []. \<exists>v. key k = Some v \<and> v \<le> bv)" by simp
  then show ?case by blast
next
  case (Cons k ks)
  from Cons.prems obtain v where v: "key k = Some v" by auto
  have rest: "\<forall>k\<in>set ks. key k \<noteq> None" using Cons.prems by simp
  show ?case
  proof (cases "v > bv")
    case True
    from Cons.IH [OF rest v] obtain r rv pre post where
      m: "max_loop key k (Some v) ks = Inr r" and kr: "key r = Some rv" and
      dec: "k # ks = pre @ r # post" and
      lt: "\<forall>x\<in>set pre. \<exists>w. key x = Some w \<and> w < rv" and
      le: "\<forall>x\<in>set post. \<exists>w. key x = Some w \<and> w \<le> rv" by blast
    have "v \<le> rv"
    proof (cases pre)
      case Nil
      then have "r = k" using dec by simp
      then show ?thesis using kr v by simp
    next
      case (Cons p ps)
      then have "k \<in> set pre" using dec by simp
      then show ?thesis using lt v by fastforce
    qed
    then have "bv < rv" using True by simp
    then have lt': "\<forall>x\<in>set (best # pre). \<exists>w. key x = Some w \<and> w < rv"
      using lt Cons.prems(2) by simp
    have "max_loop key best (Some bv) (k # ks) = Inr r" using m v True by simp
    moreover have "best # k # ks = (best # pre) @ r # post" using dec by simp
    ultimately show ?thesis using kr lt' le by blast
  next
    case False
    from Cons.IH [OF rest Cons.prems(2)] obtain r rv pre post where
      m: "max_loop key best (Some bv) ks = Inr r" and kr: "key r = Some rv" and
      dec: "best # ks = pre @ r # post" and
      lt: "\<forall>x\<in>set pre. \<exists>w. key x = Some w \<and> w < rv" and
      le: "\<forall>x\<in>set post. \<exists>w. key x = Some w \<and> w \<le> rv" by blast
    have m': "max_loop key best (Some bv) (k # ks) = Inr r" using m v False by simp
    show ?thesis
    proof (cases pre)
      case Nil
      then have rb: "r = best" and ps: "post = ks" using dec by simp_all
      then have "rv = bv" using kr Cons.prems(2) by simp
      then have le': "\<forall>x\<in>set (k # post). \<exists>w. key x = Some w \<and> w \<le> rv"
        using le v False by simp
      have "best # k # ks = [] @ r # (k # post)" using rb ps by simp
      moreover have "\<forall>x\<in>set []. \<exists>w. key x = Some w \<and> w < rv" by simp
      ultimately show ?thesis using m' kr le' by blast
    next
      case (Cons p ps)
      then have pb: "p = best" and ks: "ks = ps @ r # post" using dec by simp_all
      then have "bv < rv" using lt Cons Cons.prems(2) by fastforce
      then have "v < rv" using False by simp
      then have lt': "\<forall>x\<in>set (best # k # ps). \<exists>w. key x = Some w \<and> w < rv"
        using lt Cons pb v by simp
      have "best # k # ks = (best # k # ps) @ r # post" using ks by simp
      then show ?thesis using m' kr lt' le by blast
    qed
  qed
qed

lemma dict_get_nth:
  "distinct (map fst d) \<Longrightarrow> i < length d \<Longrightarrow> dict_get d (fst (d ! i)) = Some (snd (d ! i))"
  by (simp add: dict_get_def)

lemma py_max_dict:
  assumes ne: "d \<noteq> []" and dist: "distinct (map fst d)"
  shows "\<exists>i<length d. py_max (map fst d) (dict_get d) = Inr (fst (d ! i)) \<and>
           (\<forall>j<length d. snd (d ! j) \<le> snd (d ! i)) \<and>
           (\<forall>j<i. snd (d ! j) < snd (d ! i))"
proof -
  from ne obtain k v d' where d: "d = (k, v) # d'" by (cases d) auto
  have keys: "\<forall>x\<in>set (map fst d'). dict_get d x \<noteq> None"
  proof
    fix x assume "x \<in> set (map fst d')"
    then have "x \<in> fst ` set d" by (simp add: d)
    then have "map_of d x \<noteq> None" by (simp only: map_of_eq_None_iff not_not)
    then show "dict_get d x \<noteq> None" by (simp add: dict_get_def)
  qed
  have kb: "dict_get d k = Some v" by (simp add: dict_get_def d)
  from max_loop_first_max [OF keys kb] obtain r rv pre post where
      m: "max_loop (dict_get d) k (Some v) (map fst d') = Inr r" and kr: "dict_get d r = Some rv" and
      dec: "k # map fst d' = pre @ r # post" and
      lt: "\<forall>x\<in>set pre. \<exists>w. dict_get d x = Some w \<and> w < rv" and
      le: "\<forall>x\<in>set post. \<exists>w. dict_get d x = Some w \<and> w \<le> rv" by blast
  have dec': "map fst d = pre @ r # post" using dec d by simp
  let ?i = "length pre"
  have il: "?i < length d" using arg_cong [OF dec', of length] by simp
  have nth: "\<And>j. j < length d \<Longrightarrow> fst (d ! j) = (pre @ r # post) ! j"
    using dec' by (metis nth_map)
  have ri: "fst (d ! ?i) = r" using nth [OF il] by simp
  have rvi: "snd (d ! ?i) = rv" using dict_get_nth [OF dist il] ri kr by simp
  have pm: "py_max (map fst d) (dict_get d) = Inr (fst (d ! ?i))"
    using m kb ri by (simp add: py_max_def d)
  have all: "\<forall>j<length d. snd (d ! j) \<le> snd (d ! ?i)"
  proof (intro allI impI)
    fix j assume j: "j < length d"
    have gj: "dict_get d (fst (d ! j)) = Some (snd (d ! j))" by (rule dict_get_nth [OF dist j])
    consider "j < ?i" | "j = ?i" | "j > ?i" by linarith
    then show "snd (d ! j) \<le> snd (d ! ?i)"
    proof cases
      case 1
      then have "fst (d ! j) \<in> set pre" using nth [OF j] by (simp add: nth_append)
      then show ?thesis using lt gj rvi by fastforce
    next
      case 2
      then show ?thesis by simp
    next
      case 3
      have "j - Suc ?i < length post" using j 3 arg_cong [OF dec', of length] by simp
      moreover have "fst (d ! j) = post ! (j - Suc ?i)"
        using nth [OF j] 3 by (simp add: nth_append nth_Cons')
      ultimately have "fst (d ! j) \<in> set post" by simp
      then show ?thesis using le gj rvi by fastforce
    qed
  qed
  have before: "\<forall>j<?i. snd (d ! j) < snd (d ! ?i)"
  proof (intro allI impI)
    fix j assume j: "j < ?i"
    then have jl: "j < length d" using il by simp
    have gj: "dict_get d (fst (d ! j)) = Some (snd (d ! j))" by (rule dict_get_nth [OF dist jl])
    have "fst (d ! j) \<in> set pre" using nth [OF jl] j by (simp add: nth_append)
    then show "snd (d ! j) < snd (d ! ?i)" using lt gj rvi by fastforce
  qed
  from il pm all before show ?thesis by blast
qed

subsection \<open>The log of a run\<close>

lemma loop_log_prefix:
  "\<exists>k\<le>length names. fst (generation_loop B rq names st) =
     concat (map (\<lambda>n. [Template_built (instruction rq),
                         Backend_called n (instruction rq) (rq_max_length rq)]) (take k names))"
proof (induction names arbitrary: st)
  case Nil
  show ?case by simp
next
  case (Cons n names)
  show ?case
  proof (cases "generated B rq n")
    case (Inl e)
    have "fst (generation_loop B rq (n # names) st) =
      concat (map (\<lambda>n. [Template_built (instruction rq),
                         Backend_called n (instruction rq) (rq_max_length rq)]) (take 1 (n # names)))"
      using loop_Cons_fail [OF Inl] by (simp del: generation_loop.simps)
    moreover have "1 \<le> length (n # names)" by simp
    ultimately show ?thesis by blast
  next
    case (Inr t)
    from Cons.IH [of "store_result n t st"] obtain k where k: "k \<le> length names"
      and f: "fst (generation_loop B rq names (store_result n t st)) =
        concat (map (\<lambda>n. [Template_built (instruction rq),
                         Backend_called n (instruction rq) (rq_max_length rq)]) (take k names))"
      by blast
    have "fst (generation_loop B rq (n # names) st) =
      concat (map (\<lambda>n. [Template_built (instruction rq),
                         Backend_called n (instruction rq) (rq_max_length rq)]) (take (Suc k) (n # names)))"
      using loop_Cons_ok [OF Inr] f by (simp del: generation_loop.simps)
    moreover have "Suc k \<le> length (n # names)" using k by simp
    ultimately show ?thesis by blast
  qed
qed

lemma builds_log:
  "builds (concat (map (\<lambda>n. [Template_built p, Backend_called n p m]) names)) =
     replicate (length names) p"
  by (induction names) simp_all

lemma calls_log:
  "calls (concat (map (\<lambda>n. [Template_built p, Backend_called n p m]) names)) =
     map (\<lambda>n. (n, p, m)) names"
  by (induction names) simp_all

lemma map_zip_values:
  "length xs = length ys \<Longrightarrow> map (\<lambda>(n, t). f t) (zip xs ys) = map f ys"
  by (induction xs ys rule: list_induct2) simp_all

lemma map_zip_pairs:
  "length xs = length ys \<Longrightarrow> map (\<lambda>(n, t). (n, f t)) (zip xs ys) = zip xs (map f ys)"
  by (induction xs ys rule: list_induct2) simp_all

subsection \<open>The comparison as a whole\<close>

lemma fst_compare:
  "fst (compare reg B rq) =
     fst (generation_loop B rq (map fst reg)
            \<lparr>results = [], model_scores = [], length_scores = [], clarity_scores = []\<rparr>)"
  by (simp add: compare_def split: prod.splits sum.splits option.splits)

lemma compare_fail:
  assumes "map fst reg = pre @ m # post"
    and "\<forall>n\<in>set pre. \<exists>t. generated B rq n = Inr t"
    and "generated B rq m = Inl e"
  shows "compare reg B rq =
     (concat (map (\<lambda>n. [Template_built (instruction rq),
                          Backend_called n (instruction rq) (rq_max_length rq)]) (pre @ [m])),
      Inl e)"
  using loop_fail [OF assms(2,3)] assms(1) by (simp add: compare_def)

lemma compare_success:
  assumes dist: "distinct (map fst reg)" and ne: "reg \<noteq> []"
    and outs: "list_all2 (\<lambda>n t. generated B rq n = Inr t) (map fst reg) outs"
  shows "\<exists>i<length reg.
     compare reg B rq =
       (concat (map (\<lambda>n. [Template_built (instruction rq),
                            Backend_called n (instruction rq) (rq_max_length rq)]) (map fst reg)),
        Inr \<lparr>run = \<lparr>results = zip (map fst reg) outs,
                     model_scores = zip (map fst reg) (map final_score_of outs),
                     length_scores = map (\<lambda>t. fst (evaluate_prompt t)) outs,
                     clarity_scores = map (\<lambda>t. fst (snd (evaluate_prompt t))) outs\<rparr>,
              best_model = fst (reg ! i), best_prompt = outs ! i\<rparr>) \<and>
     (\<forall>j<length reg. final_score_of (outs ! j) \<le> final_score_of (outs ! i)) \<and>
     (\<forall>j<i. final_score_of (outs ! j) < final_score_of (outs ! i))"
proof -
  let ?names = "map fst reg"
  let ?init = "\<lparr>results = [], model_scores = [], length_scores = [], clarity_scores = []\<rparr>"
  let ?d = "zip ?names (map final_score_of outs)"
  let ?st = "\<lparr>results = zip ?names outs, model_scores = ?d,
              length_scores = map (\<lambda>t. fst (evaluate_prompt t)) outs,
              clarity_scores = map (\<lambda>t. fst (snd (evaluate_prompt t))) outs\<rparr>"
  let ?log = "concat (map (\<lambda>n. [Template_built (instruction rq),
                            Backend_called n (instruction rq) (rq_max_length rq)]) ?names)"
  have len: "length ?names = length outs" using outs by (rule list_all2_lengthD)
  then have len': "length outs = length reg" by simp
  have "foldl (\<lambda>s (n, t). store_result n t s) ?init (zip ?names outs) = ?st"
    using store_all [OF len dist, of ?init] by simp
  then have loop: "generation_loop B rq ?names ?init = (?log, Inr ?st)"
    using loop_success [OF outs, of ?init] by simp
  have keys: "map fst ?d = ?names" using len by simp
  have dne: "?d \<noteq> []" using ne len by (cases reg; cases outs) simp_all
  have ddist: "distinct (map fst ?d)" using dist keys by simp
  from py_max_dict [OF dne ddist] obtain i where i: "i < length ?d"
    and pm: "py_max (map fst ?d) (dict_get ?d) = Inr (fst (?d ! i))"
    and all: "\<forall>j<length ?d. snd (?d ! j) \<le> snd (?d ! i)"
    and before: "\<forall>j<i. snd (?d ! j) < snd (?d ! i)" by blast
  have ld: "length ?d = length reg" using len by simp
  have ir: "i < length reg" using i ld by simp
  have fi: "fst (?d ! i) = fst (reg ! i)" using ir len' by simp
  have sj: "\<And>j. j < length reg \<Longrightarrow> snd (?d ! j) = final_score_of (outs ! j)"
    using len' by simp
  have rdist: "distinct (map fst (zip ?names outs))" using dist len by simp
  have "dict_get (zip ?names outs) (fst (zip ?names outs ! i)) = Some (snd (zip ?names outs ! i))"
    by (rule dict_get_nth [OF rdist]) (simp add: len' ir)
  then have bp: "dict_get (zip ?names outs) (fst (reg ! i)) = Some (outs ! i)"
    using ir len' by simp
  have cmp: "compare reg B rq =
      (?log, Inr \<lparr>run = ?st, best_model = fst (reg ! i), best_prompt = outs ! i\<rparr>)"
    using loop pm fi bp by (simp add: compare_def)
  have a: "\<forall>j<length reg. final_score_of (outs ! j) \<le> final_score_of (outs ! i)"
    using all ld sj ir by simp
  have b: "\<forall>j<i. final_score_of (outs ! j) < final_score_of (outs ! i)"
    using before sj ir by simp
  from ir cmp a b show ?thesis by blast
qed

subsection \<open>The registry and the example inputs\<close>

lemma models_keys: "map fst models = [lit ''DistilGPT-2'', lit ''GPT-Neo-125M'']"
  by (simp add: models_def lit_def)

lemma models_names_differ: "lit ''DistilGPT-2'' \<noteq> lit ''GPT-Neo-125M''"
  by (simp add: lit_def)

lemma gen_tie_first:
  "generated tie_backend example_request (lit ''DistilGPT-2'') = Inr (lit ''Axial brain scan'')"
  by (simp add: generated_backend tie_backend_def str_strip_def lit_def isspace_def)

lemma gen_tie_second:
  "generated tie_backend example_request (lit ''GPT-Neo-125M'') = Inr (lit ''A CT of the lungs'')"
  by (simp add: generated_backend tie_backend_def str_strip_def lit_def isspace_def)

lemma tie_scores:
  "final_score_of (lit ''Axial brain scan'') = 6" "final_score_of (lit ''A CT of the lungs'') = 6"
  by (simp_all add: final_score_of_def evaluate_prompt_def str_split_def lit_def isspace_def)

lemma gen_fails_first:
  "generated fails_at_first example_request n = Inl (Backend_raised (lit ''out of memory''))"
  by (simp add: generated_backend fails_at_first_def)

lemma gen_fails_second:
  "generated fails_at_second example_request (lit ''DistilGPT-2'') = Inr (lit ''Axial brain scan'')"
  "generated fails_at_second example_request (lit ''GPT-Neo-125M'') =
     Inl (Backend_raised (lit ''out of memory''))"
  by (simp_all add: generated_backend fails_at_second_def str_strip_def lit_def isspace_def)

subsection \<open>Loading the tokenizers\<close>

lemma in_dict_set:
  "(n, t) \<in> set (dict_set d k v) \<Longrightarrow> (n, t) \<in> set d \<or> (n, t) = (k, v)"
  by (induction d) (auto split: if_splits)

lemma map_fst_dict_set:
  "map fst (dict_set d k v) = (if k \<in> set (map fst d) then map fst d else map fst d @ [k])"
  by (induction d) (auto simp: rev_image_eqI)

lemma keys_dict_set: "fst ` set (dict_set d k v) = insert k (fst ` set d)"
proof -
  have "set (map fst (dict_set d k v)) = insert k (set (map fst d))"
    unfolding map_fst_dict_set by auto
  then show ?thesis by simp
qed

lemma load_tokenizers_origin:
  "load_tokenizers fp reg acc = Inr d \<Longrightarrow> (n, t) \<in> set d \<Longrightarrow>
   (n, t) \<in> set acc \<or> (\<exists>model_path. (n, model_path) \<in> set reg \<and> fp model_path = Inr t)"
proof (induction fp reg acc rule: load_tokenizers.induct)
  case (1 fp acc)
  then show ?case by simp
next
  case (2 fp name model_path rest acc)
  from "2.prems"(1) obtain t0 where t0: "fp model_path = Inr t0"
    and rest: "load_tokenizers fp rest (dict_set acc name t0) = Inr d"
    by (auto split: sum.splits)
  from "2.IH" [OF t0 rest "2.prems"(2)] show ?case
  proof
    assume "(n, t) \<in> set (dict_set acc name t0)"
    then show ?thesis using in_dict_set [of n t acc name t0] t0 by auto
  next
    assume "\<exists>model_path. (n, model_path) \<in> set rest \<and> fp model_path = Inr t"
    then show ?thesis by auto
  qed
qed

lemma load_tokenizers_keys:
  "load_tokenizers fp reg acc = Inr d \<Longrightarrow> fst ` set d = fst ` set acc \<union> fst ` set reg"
proof (induction fp reg acc rule: load_tokenizers.induct)
  case (1 fp acc)
  then show ?case by simp
next
  case (2 fp name model_path rest acc)
  from "2.prems"(1) obtain t0 where t0: "fp model_path = Inr t0"
    and rest: "load_tokenizers fp rest (dict_set acc name t0) = Inr d"
    by (auto split: sum.splits)
  from "2.IH" [OF t0 rest] show ?case by (auto simp: keys_dict_set)
qed

subsection \<open>The instruction text\<close>

lemma base_prompt_length:
  "length (base_prompt d m c dt) =
     length (base_prompt d m [] [])
       + (if c = [] then 0 else length c + 21)
       + (if dt = [] then 0 else length dt + 26)"
  by (simp add: base_prompt_def Let_def lit_def)

section \<open>The claims\<close>

text \<open>
  C1. A comparison over a registry of N models with distinct names, all of which
  answer, returns N entries keyed by exactly those names, in registration order; each
  entry holds the text generated for its model and the scores of that text. The best
  model is one of the registered names, its final score is greater than or equal to
  every entry's final score, and every model registered before it has a strictly smaller
  final score: among several maxima the earliest registered model is chosen.
\<close>

theorem compare_entries_and_best:
  assumes dist: "distinct (map fst reg)" and ne: "reg \<noteq> []"
    and ok: "\<forall>name\<in>set (map fst reg). \<exists>text. generated B rq name = Inr text"
  shows "\<exists>cmp. snd (compare reg B rq) = Inr cmp \<and>
     length (results (run cmp)) = length reg \<and>
     map fst (results (run cmp)) = map fst reg \<and>
     distinct (map fst (results (run cmp))) \<and>
     (\<forall>(name, text)\<in>set (results (run cmp)). generated B rq name = Inr text) \<and>
     model_scores (run cmp) =
       map (\<lambda>(name, text). (name, final_score_of text)) (results (run cmp)) \<and>
     length_scores (run cmp) =
       map (\<lambda>(name, text). fst (evaluate_prompt text)) (results (run cmp)) \<and>
     clarity_scores (run cmp) =
       map (\<lambda>(name, text). fst (snd (evaluate_prompt text))) (results (run cmp)) \<and>
     (\<exists>i<length reg.
        best_model cmp = fst (reg ! i) \<and>
        best_prompt cmp = snd (results (run cmp) ! i) \<and>
        (\<forall>j<length reg. snd (model_scores (run cmp) ! j) \<le> snd (model_scores (run cmp) ! i)) \<and>
        (\<forall>j<i. snd (model_scores (run cmp) ! j) < snd (model_scores (run cmp) ! i)))"
proof -
  let ?names = "map fst reg"
  from outs_exist [OF ok] obtain outs
    where outs: "list_all2 (\<lambda>n t. generated B rq n = Inr t) ?names outs" by blast
  have len: "length ?names = length outs" using outs by (rule list_all2_lengthD)
  then have len': "length outs = length reg" by simp
  let ?st = "\<lparr>results = zip ?names outs,
              model_scores = zip ?names (map final_score_of outs),
              length_scores = map (\<lambda>t. fst (evaluate_prompt t)) outs,
              clarity_scores = map (\<lambda>t. fst (snd (evaluate_prompt t))) outs\<rparr>"
  from compare_success [OF dist ne outs] obtain i where i: "i < length reg"
    and cmp: "snd (compare reg B rq) =
        Inr \<lparr>run = ?st, best_model = fst (reg ! i), best_prompt = outs ! i\<rparr>"
    and all: "\<forall>j<length reg. final_score_of (outs ! j) \<le> final_score_of (outs ! i)"
    and before: "\<forall>j<i. final_score_of (outs ! j) < final_score_of (outs ! i)"
    by fastforce
  let ?cmp = "\<lparr>run = ?st, best_model = fst (reg ! i), best_prompt = outs ! i\<rparr>"
  have c1: "length (results (run ?cmp)) = length reg" using len' by simp
  have c2: "map fst (results (run ?cmp)) = map fst reg" using len by simp
  have c3: "distinct (map fst (results (run ?cmp)))" using c2 dist by simp
  have c4: "\<forall>(name, text)\<in>set (results (run ?cmp)). generated B rq name = Inr text"
    using outs by (auto simp: list_all2_iff)
  have c5: "model_scores (run ?cmp) =
       map (\<lambda>(name, text). (name, final_score_of text)) (results (run ?cmp))"
    using len by (simp add: map_zip_pairs)
  have c6: "length_scores (run ?cmp) =
       map (\<lambda>(name, text). fst (evaluate_prompt text)) (results (run ?cmp))"
    using len by (simp add: map_zip_values)
  have c7: "clarity_scores (run ?cmp) =
       map (\<lambda>(name, text). fst (snd (evaluate_prompt text))) (results (run ?cmp))"
    using len by (simp add: map_zip_values)
  have c8: "\<exists>i<length reg.
        best_model ?cmp = fst (reg ! i) \<and>
        best_prompt ?cmp = snd (results (run ?cmp) ! i) \<and>
        (\<forall>j<length reg. snd (model_scores (run ?cmp) ! j) \<le> snd (model_scores (run ?cmp) ! i)) \<and>
        (\<forall>j<i. snd (model_scores (run ?cmp) ! j) < snd (model_scores (run ?cmp) ! i))"
    using i all before len' by (intro exI [of _ i]) simp
  from cmp c1 c2 c3 c4 c5 c6 c7 c8 show ?thesis by blast
qed

theorem compare_entries_and_best_witness:
  "distinct (map fst models) \<and> models \<noteq> [] \<and>
   (\<exists>cmp. snd (compare models tie_backend example_request) = Inr cmp \<and>
      length (results (run cmp)) = 2 \<and>
      map fst (results (run cmp)) = [lit ''DistilGPT-2'', lit ''GPT-Neo-125M''])"
proof -
  have d: "distinct (map fst models)" by (simp add: models_keys models_names_differ)
  have n: "models \<noteq> []" using models_keys by auto
  have ok: "\<forall>name\<in>set (map fst models). \<exists>text. generated tie_backend example_request name = Inr text"
    by (simp add: models_keys gen_tie_first gen_tie_second)
  have l: "length models = 2" using arg_cong [OF models_keys, of length] by simp
  from compare_entries_and_best [OF d n ok] obtain cmp where
    "snd (compare models tie_backend example_request) = Inr cmp"
    "length (results (run cmp)) = length models"
    "map fst (results (run cmp)) = map fst models" by blast
  then show ?thesis using d n l models_keys by auto
qed

text \<open>
  C2. The instruction is the base sentence with modality and description, then the
  condition fragment when a condition is given, then the details fragment when details
  are given, then the fixed closing sentence, in that order. For the description
  ``human brain'', the modality ``MRI'' and empty condition and details it is exactly the
  text of the example.
\<close>

theorem base_prompt_four_steps:
  "base_prompt description modality condition details =
     lit ''Generate a '' @ modality @ lit '' scan of '' @ description
       @ lit ''. Focus on the medical imaging context only.''
       @ (if condition = [] then [] else lit '' Focus on capturing '' @ condition @ lit ''.'')
       @ (if details = [] then [] else lit '' Include details such as '' @ details @ lit ''.'')
       @ lit '' Avoid any extra information, references, or irrelevant content. Keep the prompt focused only on the image generation task.''
   \<and> base_prompt (lit ''human brain'') (lit ''MRI'') [] [] =
       lit ''Generate a MRI scan of human brain. Focus on the medical imaging context only. Avoid any extra information, references, or irrelevant content. Keep the prompt focused only on the image generation task.''"
  by (simp add: base_prompt_def Let_def lit_def)

theorem base_prompt_four_steps_witness:
  "base_prompt (lit ''chest'') (lit ''CT'') (lit ''pneumonia'') (lit ''left lobe'') =
     lit ''Generate a CT scan of chest. Focus on the medical imaging context only. Focus on capturing pneumonia. Include details such as left lobe. Avoid any extra information, references, or irrelevant content. Keep the prompt focused only on the image generation task.''"
  using base_prompt_four_steps [of "lit ''chest''" "lit ''CT''" "lit ''pneumonia''" "lit ''left lobe''"]
  by (simp add: lit_def)

text \<open>
  C3. \<open>evaluate_prompt\<close> is defined on every string. Its length score is the number of
  whitespace-delimited tokens of the text, its clarity score the number of those tokens
  with more than three characters, and its final score the sum of the two; on the empty
  string all three are 0.
\<close>

theorem evaluate_prompt_scores:
  "evaluate_prompt text =
     (int (length (ws_tokens text)),
      int (length (filter (\<lambda>tok. 3 < length tok) (ws_tokens text))),
      int (length (ws_tokens text))
        + int (length (filter (\<lambda>tok. 3 < length tok) (ws_tokens text))))
   \<and> evaluate_prompt [] = (0, 0, 0)"
  by (simp add: evaluate_prompt_def str_split_ws_tokens Let_def) (simp add: ws_tokens_def)

theorem evaluate_prompt_scores_witness:
  "evaluate_prompt (lit ''The quick fox'') = (3, 1, 4)"
  using evaluate_prompt_scores [of "lit ''The quick fox''"]
  by (simp add: ws_tokens_def lit_def isspace_def)

text \<open>
  C4, as the code has it. An optional fragment is left out exactly when its field is
  the empty string: with an empty condition the instruction is the base sentence
  followed directly by the details part and the closing sentence, and with an empty
  details field the condition part is followed directly by the closing sentence. A
  field that is not empty appears in its fragment as it was given. The code does not
  trim: a field of whitespace only counts as given.
\<close>

theorem optional_fragments_iff_nonempty:
  "(c = [] \<longrightarrow>
      base_prompt d m c dt =
        lit ''Generate a '' @ m @ lit '' scan of '' @ d
          @ lit ''. Focus on the medical imaging context only.''
          @ (if dt = [] then [] else lit '' Include details such as '' @ dt @ lit ''.'')
          @ lit '' Avoid any extra information, references, or irrelevant content. Keep the prompt focused only on the image generation task.'') \<and>
   (c \<noteq> [] \<longrightarrow>
      base_prompt d m c dt =
        lit ''Generate a '' @ m @ lit '' scan of '' @ d
          @ lit ''. Focus on the medical imaging context only.''
          @ lit '' Focus on capturing '' @ c @ lit ''.''
          @ (if dt = [] then [] else lit '' Include details such as '' @ dt @ lit ''.'')
          @ lit '' Avoid any extra information, references, or irrelevant content. Keep the prompt focused only on the image generation task.'') \<and>
   (dt = [] \<longrightarrow>
      base_prompt d m c dt =
        lit ''Generate a '' @ m @ lit '' scan of '' @ d
          @ lit ''. Focus on the medical imaging context only.''
          @ (if c = [] then [] else lit '' Focus on capturing '' @ c @ lit ''.'')
          @ lit '' Avoid any extra information, references, or irrelevant content. Keep the prompt focused only on the image generation task.'') \<and>
   (dt \<noteq> [] \<longrightarrow>
      base_prompt d m c dt =
        lit ''Generate a '' @ m @ lit '' scan of '' @ d
          @ lit ''. Focus on the medical imaging context only.''
          @ (if c = [] then [] else lit '' Focus on capturing '' @ c @ lit ''.'')
          @ lit '' Include details such as '' @ dt @ lit ''.''
          @ lit '' Avoid any extra information, references, or irrelevant content. Keep the prompt focused only on the image generation task.'') \<and>
   (base_prompt d m c dt = base_prompt d m [] dt) = (c = []) \<and>
   (base_prompt d m c dt = base_prompt d m c []) = (dt = [])"
proof (intro conjI impI)
  assume "c = []"
  then show "base_prompt d m c dt =
        lit ''Generate a '' @ m @ lit '' scan of '' @ d
          @ lit ''. Focus on the medical imaging context only.''
          @ (if dt = [] then [] else lit '' Include details such as '' @ dt @ lit ''.'')
          @ lit '' Avoid any extra information, references, or irrelevant content. Keep the prompt focused only on the image generation task.''"
    by (simp add: base_prompt_def Let_def)
next
  assume "c \<noteq> []"
  then show "base_prompt d m c dt =
        lit ''Generate a '' @ m @ lit '' scan of '' @ d
          @ lit ''. Focus on the medical imaging context only.''
          @ lit '' Focus on capturing '' @ c @ lit ''.''
          @ (if dt = [] then [] else lit '' Include details such as '' @ dt @ lit ''.'')
          @ lit '' Avoid any extra information, references, or irrelevant content. Keep the prompt focused only on the image generation task.''"
    by (simp add: base_prompt_def Let_def)
next
  assume "dt = []"
  then show "base_prompt d m c dt =
        lit ''Generate a '' @ m @ lit '' scan of '' @ d
          @ lit ''. Focus on the medical imaging context only.''
          @ (if c = [] then [] else lit '' Focus on capturing '' @ c @ lit ''.'')
          @ lit '' Avoid any extra information, references, or irrelevant content. Keep the prompt focused only on the image generation task.''"
    by (simp add: base_prompt_def Let_def)
next
  assume "dt \<noteq> []"
  then show "base_prompt d m c dt =
        lit ''Generate a '' @ m @ lit '' scan of '' @ d
          @ lit ''. Focus on the medical imaging context only.''
          @ (if c = [] then [] else lit '' Focus on capturing '' @ c @ lit ''.'')
          @ lit '' Include details such as '' @ dt @ lit ''.''
          @ lit '' Avoid any extra information, references, or irrelevant content. Keep the prompt focused only on the image generation task.''"
    by (simp add: base_prompt_def Let_def)
next
  show "(base_prompt d m c dt = base_prompt d m [] dt) = (c = [])"
  proof
    assume "base_prompt d m c dt = base_prompt d m [] dt"
    then have "length (base_prompt d m c dt) = length (base_prompt d m [] dt)" by simp
    then show "c = []"
      using base_prompt_length [of d m c dt] base_prompt_length [of d m "[]" dt]
      by (simp split: if_splits)
  next
    assume "c = []" then show "base_prompt d m c dt = base_prompt d m [] dt" by simp
  qed
next
  show "(base_prompt d m c dt = base_prompt d m c []) = (dt = [])"
  proof
    assume "base_prompt d m c dt = base_prompt d m c []"
    then have "length (base_prompt d m c dt) = length (base_prompt d m c [])" by simp
    then show "dt = []"
      using base_prompt_length [of d m c dt] base_prompt_length [of d m c "[]"]
      by (simp split: if_splits)
  next
    assume "dt = []" then show "base_prompt d m c dt = base_prompt d m c []" by simp
  qed
qed

theorem optional_fragments_iff_nonempty_witness:
  "base_prompt (lit ''human brain'') (lit ''MRI'') [] [] =
     lit ''Generate a MRI scan of human brain. Focus on the medical imaging context only. Avoid any extra information, references, or irrelevant content. Keep the prompt focused only on the image generation task.'' \<and>
   base_prompt (lit ''human brain'') (lit ''MRI'') (lit ''glioma'') [] =
     lit ''Generate a MRI scan of human brain. Focus on the medical imaging context only. Focus on capturing glioma. Avoid any extra information, references, or irrelevant content. Keep the prompt focused only on the image generation task.'' \<and>
   base_prompt (lit ''human brain'') (lit ''MRI'') [] (lit ''axial view'') =
     lit ''Generate a MRI scan of human brain. Focus on the medical imaging context only. Include details such as axial view. Avoid any extra information, references, or irrelevant content. Keep the prompt focused only on the image generation task.'' \<and>
   base_prompt (lit ''human brain'') (lit ''MRI'') (lit ''glioma'') [] \<noteq>
     base_prompt (lit ''human brain'') (lit ''MRI'') [] [] \<and>
   base_prompt (lit ''human brain'') (lit ''MRI'') [] (lit ''axial view'') \<noteq>
     base_prompt (lit ''human brain'') (lit ''MRI'') [] []"
proof -
  have g: "lit ''glioma'' \<noteq> []" and a: "lit ''axial view'' \<noteq> []" by (simp_all add: lit_def)
  note e = optional_fragments_iff_nonempty [of "[]" "lit ''human brain''" "lit ''MRI''" "[]"]
  note c = optional_fragments_iff_nonempty [of "lit ''glioma''" "lit ''human brain''" "lit ''MRI''" "[]"]
  note d = optional_fragments_iff_nonempty [of "[]" "lit ''human brain''" "lit ''MRI''" "lit ''axial view''"]
  have 1: "base_prompt (lit ''human brain'') (lit ''MRI'') [] [] =
     lit ''Generate a MRI scan of human brain. Focus on the medical imaging context only. Avoid any extra information, references, or irrelevant content. Keep the prompt focused only on the image generation task.''"
    using e by (simp add: lit_def)
  have 2: "base_prompt (lit ''human brain'') (lit ''MRI'') (lit ''glioma'') [] =
     lit ''Generate a MRI scan of human brain. Focus on the medical imaging context only. Focus on capturing glioma. Avoid any extra information, references, or irrelevant content. Keep the prompt focused only on the image generation task.''"
    using c g by (simp add: lit_def)
  have 3: "base_prompt (lit ''human brain'') (lit ''MRI'') [] (lit ''axial view'') =
     lit ''Generate a MRI scan of human brain. Focus on the medical imaging context only. Include details such as axial view. Avoid any extra information, references, or irrelevant content. Keep the prompt focused only on the image generation task.''"
    using d a by (simp add: lit_def)
  have 4: "base_prompt (lit ''human brain'') (lit ''MRI'') (lit ''glioma'') [] \<noteq>
     base_prompt (lit ''human brain'') (lit ''MRI'') [] []"
    using c g by blast
  have 5: "base_prompt (lit ''human brain'') (lit ''MRI'') [] (lit ''axial view'') \<noteq>
     base_prompt (lit ''human brain'') (lit ''MRI'') [] []"
    using d a by blast
  from 1 2 3 4 5 show ?thesis by (intro conjI)
qed

text \<open>
  C4 as stated fails: a condition that is a single space is not left out. The
  instruction then contains the fragment ``Focus on capturing'' around that space.
\<close>

theorem blank_condition_counterexample:
  "list_all isspace (lit '' '') \<and>
   base_prompt (lit ''human brain'') (lit ''MRI'') (lit '' '') [] =
     lit ''Generate a MRI scan of human brain. Focus on the medical imaging context only. Focus on capturing  . Avoid any extra information, references, or irrelevant content. Keep the prompt focused only on the image generation task.'' \<and>
   base_prompt (lit ''human brain'') (lit ''MRI'') (lit '' '') [] \<noteq>
     base_prompt (lit ''human brain'') (lit ''MRI'') [] []"
  by (simp add: base_prompt_def Let_def lit_def isspace_def)

text \<open>
  C5, as the code has it. When the backend of a model raises and all models registered
  before it have answered, the comparison as a whole fails with exactly the exception the
  backend raised: there is no result for any model, and the models registered after the
  failing one are not called. The code adds nothing to the exception.
\<close>

theorem backend_exception_ends_comparison:
  assumes names: "map fst reg = pre @ m # post"
    and ok: "\<forall>n\<in>set pre. \<exists>raw. B n (instruction rq) (rq_max_length rq) = Inr raw"
    and raised: "B m (instruction rq) (rq_max_length rq) = Inl e"
  shows "snd (compare reg B rq) = Inl e \<and>
     map fst (calls (fst (compare reg B rq))) = pre @ [m]"
proof -
  have ok': "\<forall>n\<in>set pre. \<exists>t. generated B rq n = Inr t"
    using ok by (auto simp: generated_backend)
  have raised': "generated B rq m = Inl e" using raised by (simp add: generated_backend)
  have c: "compare reg B rq =
     (concat (map (\<lambda>n. [Template_built (instruction rq),
                          Backend_called n (instruction rq) (rq_max_length rq)]) (pre @ [m])),
      Inl e)"
    by (rule compare_fail [OF names ok' raised'])
  have "calls (fst (compare reg B rq)) =
      map (\<lambda>n. (n, instruction rq, rq_max_length rq)) (pre @ [m])"
    unfolding c fst_conv by (rule calls_log)
  then have "map fst (calls (fst (compare reg B rq))) = pre @ [m]"
    by (simp add: comp_def)
  then show ?thesis using c by simp
qed

theorem backend_exception_ends_comparison_witness:
  "snd (compare models fails_at_first example_request) =
     Inl (Backend_raised (lit ''out of memory'')) \<and>
   map fst (calls (fst (compare models fails_at_first example_request))) = [lit ''DistilGPT-2'']"
proof -
  have names: "map fst models = [] @ lit ''DistilGPT-2'' # [lit ''GPT-Neo-125M'']"
    by (simp add: models_keys)
  have ok: "\<forall>n\<in>set []. \<exists>raw.
      fails_at_first n (instruction example_request) (rq_max_length example_request) = Inr raw"
    by simp
  have raised: "fails_at_first (lit ''DistilGPT-2'') (instruction example_request)
      (rq_max_length example_request) = Inl (Backend_raised (lit ''out of memory''))"
    by (simp add: fails_at_first_def)
  from backend_exception_ends_comparison
         [of models "[]" "lit ''DistilGPT-2''" "[lit ''GPT-Neo-125M'']" fails_at_first
             example_request "Backend_raised (lit ''out of memory'')", OF names ok raised]
  show ?thesis by simp
qed

text \<open>
  C5 as stated fails in the part that the error identifies the failing model: a run in
  which the first model raises and a run in which the second model raises the same
  exception surface the same error.
\<close>

theorem same_error_different_model_counterexample:
  "snd (compare models fails_at_first example_request) =
     Inl (Backend_raised (lit ''out of memory'')) \<and>
   snd (compare models fails_at_second example_request) =
     Inl (Backend_raised (lit ''out of memory'')) \<and>
   generated fails_at_first example_request (lit ''DistilGPT-2'') =
     Inl (Backend_raised (lit ''out of memory'')) \<and>
   generated fails_at_second example_request (lit ''DistilGPT-2'') =
     Inr (lit ''Axial brain scan'') \<and>
   generated fails_at_second example_request (lit ''GPT-Neo-125M'') =
     Inl (Backend_raised (lit ''out of memory''))"
proof -
  have n1: "map fst models = [] @ lit ''DistilGPT-2'' # [lit ''GPT-Neo-125M'']"
    by (simp add: models_keys)
  have n2: "map fst models = [lit ''DistilGPT-2''] @ lit ''GPT-Neo-125M'' # []"
    by (simp add: models_keys)
  have a: "snd (compare models fails_at_first example_request) =
     Inl (Backend_raised (lit ''out of memory''))"
    using compare_fail [of models "[]" "lit ''DistilGPT-2''" "[lit ''GPT-Neo-125M'']"
             fails_at_first example_request, OF n1 _ gen_fails_first] by simp
  have ok: "\<forall>n\<in>set [lit ''DistilGPT-2'']. \<exists>t. generated fails_at_second example_request n = Inr t"
    by (simp add: gen_fails_second)
  have b: "snd (compare models fails_at_second example_request) =
     Inl (Backend_raised (lit ''out of memory''))"
    using compare_fail [of models "[lit ''DistilGPT-2'']" "lit ''GPT-Neo-125M''" "[]"
             fails_at_second example_request, OF n2 ok gen_fails_second(2)] by simp
  from a b gen_fails_first gen_fails_second show ?thesis by simp
qed

text \<open>
  C6. The comment is a function of the final score alone, with three buckets: below 150
  the comment that the prompt could be improved, from 150 and below 200 the comment that
  it is fairly descriptive, from 200 on the comment that it is well-structured. The three
  comments differ, so every integer score falls in exactly one bucket.
\<close>

theorem comment_buckets:
  "(comment final_score = lit ''**Comment:** The generated prompt could be improved by making it more specific and detailed.'') = (final_score < 150) \<and>
   (comment final_score = lit ''**Comment:** The prompt is fairly descriptive, but it could benefit from additional details.'') = (150 \<le> final_score \<and> final_score < 200) \<and>
   (comment final_score = lit ''**Comment:** The prompt is well-structured and highly descriptive.'') = (200 \<le> final_score)"
  by (simp add: comment_def lit_def)

theorem comment_buckets_witness:
  "comment 149 = lit ''**Comment:** The generated prompt could be improved by making it more specific and detailed.'' \<and>
   comment 150 = lit ''**Comment:** The prompt is fairly descriptive, but it could benefit from additional details.'' \<and>
   comment 199 = lit ''**Comment:** The prompt is fairly descriptive, but it could benefit from additional details.'' \<and>
   comment 200 = lit ''**Comment:** The prompt is well-structured and highly descriptive.''"
  using comment_buckets [of 149] comment_buckets [of 150] comment_buckets [of 199]
    comment_buckets [of 200]
  by simp

text \<open>
  C7, as the code has it. One call of \<open>generate_prompt_with_model\<close> builds one
  instruction, which depends on description, modality, condition and details only:
  requests that agree on these four fields have the same instruction. In a comparison
  every backend call receives that same instruction text and the same \<open>max_length\<close>,
  and the instruction is built anew for each model that is called: when all N models
  answer, it is built N times.
\<close>

theorem instruction_per_call:
  "builds (fst (generate_prompt_with_model B model_name description modality condition details
                  max_length)) = [base_prompt description modality condition details] \<and>
   (rq_description rq = rq_description rq' \<and> rq_modality rq = rq_modality rq' \<and>
    rq_condition rq = rq_condition rq' \<and> rq_details rq = rq_details rq'
      \<longrightarrow> instruction rq = instruction rq') \<and>
   (\<exists>k\<le>length reg.
      calls (fst (compare reg B rq)) =
        map (\<lambda>n. (n, instruction rq, rq_max_length rq)) (take k (map fst reg)) \<and>
      builds (fst (compare reg B rq)) = replicate k (instruction rq)) \<and>
   ((\<forall>name\<in>set (map fst reg). \<exists>text. generated B rq name = Inr text) \<longrightarrow>
      calls (fst (compare reg B rq)) =
        map (\<lambda>n. (n, instruction rq, rq_max_length rq)) (map fst reg) \<and>
      builds (fst (compare reg B rq)) = replicate (length reg) (instruction rq))"
proof (intro conjI impI)
  show "builds (fst (generate_prompt_with_model B model_name description modality condition
                  details max_length)) = [base_prompt description modality condition details]"
    by (simp add: generate_prompt_with_model_def Let_def)
next
  assume "rq_description rq = rq_description rq' \<and> rq_modality rq = rq_modality rq' \<and>
    rq_condition rq = rq_condition rq' \<and> rq_details rq = rq_details rq'"
  then show "instruction rq = instruction rq'" by (simp add: instruction_def)
next
  let ?init = "\<lparr>results = [], model_scores = [], length_scores = [], clarity_scores = []\<rparr>"
  from loop_log_prefix [of "map fst reg" B rq ?init] obtain k where k: "k \<le> length reg"
    and f: "fst (compare reg B rq) =
      concat (map (\<lambda>n. [Template_built (instruction rq),
                         Backend_called n (instruction rq) (rq_max_length rq)])
                (take k (map fst reg)))"
    by (auto simp: fst_compare)
  have "calls (fst (compare reg B rq)) =
        map (\<lambda>n. (n, instruction rq, rq_max_length rq)) (take k (map fst reg))"
    unfolding f by (rule calls_log)
  moreover have "builds (fst (compare reg B rq)) = replicate k (instruction rq)"
    unfolding f using k by (simp add: builds_log)
  ultimately show "\<exists>k\<le>length reg.
      calls (fst (compare reg B rq)) =
        map (\<lambda>n. (n, instruction rq, rq_max_length rq)) (take k (map fst reg)) \<and>
      builds (fst (compare reg B rq)) = replicate k (instruction rq)"
    using k by blast
next
  assume ok: "\<forall>name\<in>set (map fst reg). \<exists>text. generated B rq name = Inr text"
  let ?init = "\<lparr>results = [], model_scores = [], length_scores = [], clarity_scores = []\<rparr>"
  from outs_exist [OF ok] obtain outs
    where outs: "list_all2 (\<lambda>n t. generated B rq n = Inr t) (map fst reg) outs" by blast
  have f: "fst (compare reg B rq) =
      concat (map (\<lambda>n. [Template_built (instruction rq),
                         Backend_called n (instruction rq) (rq_max_length rq)]) (map fst reg))"
    using loop_success [OF outs, of ?init] by (simp add: fst_compare)
  show "calls (fst (compare reg B rq)) =
        map (\<lambda>n. (n, instruction rq, rq_max_length rq)) (map fst reg)"
    unfolding f by (rule calls_log)
  show "builds (fst (compare reg B rq)) = replicate (length reg) (instruction rq)"
    unfolding f using builds_log [of "instruction rq" "rq_max_length rq" "map fst reg"] by simp
qed

theorem instruction_per_call_witness:
  "calls (fst (compare models tie_backend example_request)) =
     [(lit ''DistilGPT-2'', instruction example_request, 100),
      (lit ''GPT-Neo-125M'', instruction example_request, 100)] \<and>
   builds (fst (compare models tie_backend example_request)) =
     replicate (length models) (instruction example_request)"
proof -
  have ok: "\<forall>name\<in>set (map fst models). \<exists>text. generated tie_backend example_request name = Inr text"
    by (simp add: models_keys gen_tie_first gen_tie_second)
  have m: "rq_max_length example_request = 100" by (simp add: example_request_def)
  from instruction_per_call [where rq = example_request and rq' = example_request
         and reg = models and B = tie_backend] ok
  show ?thesis by (simp add: models_keys m)
qed

text \<open>
  C7 as stated fails in the part that the instruction is built once: in a comparison
  over the two registered models it is built twice.
\<close>

theorem instruction_built_twice_counterexample:
  "builds (fst (compare models tie_backend example_request)) =
     [instruction example_request, instruction example_request] \<and>
   length (builds (fst (compare models tie_backend example_request))) \<noteq> 1"
proof -
  have outs: "list_all2 (\<lambda>n t. generated tie_backend example_request n = Inr t) (map fst models)
      [lit ''Axial brain scan'', lit ''A CT of the lungs'']"
    by (simp add: models_keys gen_tie_first gen_tie_second)
  let ?init = "\<lparr>results = [], model_scores = [], length_scores = [], clarity_scores = []\<rparr>"
  have "fst (compare models tie_backend example_request) =
      concat (map (\<lambda>n. [Template_built (instruction example_request),
                         Backend_called n (instruction example_request)
                           (rq_max_length example_request)]) (map fst models))"
    using loop_success [OF outs, of ?init] by (simp add: fst_compare)
  then show ?thesis by (simp add: models_keys)
qed

text \<open>
  C8. Once initialisation has completed, the tokenizers are those of the registered
  names; a tokenizer that was loaded without a padding token has its end-of-sequence
  token as padding token, and one loaded with a padding token keeps it. Provided every
  tokenizer that is loaded without a padding token defines an end-of-sequence token, no
  tokenizer is left without a padding token.
\<close>

theorem every_tokenizer_has_pad_token:
  assumes init: "model_tokenizers from_pretrained reg = Inr toks"
    and eos: "\<forall>(name, model_path)\<in>set reg. \<forall>t.
                from_pretrained model_path = Inr t \<longrightarrow> pad_token t = None \<longrightarrow> eos_token t \<noteq> None"
  shows "fst ` set toks = fst ` set reg \<and>
     (\<forall>(name, t)\<in>set toks.
        pad_token t \<noteq> None \<and>
        (\<exists>model_path t0. (name, model_path) \<in> set reg \<and> from_pretrained model_path = Inr t0 \<and>
           eos_token t = eos_token t0 \<and>
           pad_token t = (case pad_token t0 of None \<Rightarrow> eos_token t0 | Some p \<Rightarrow> Some p)))"
proof -
  from init obtain d where d: "load_tokenizers from_pretrained reg [] = Inr d"
    and toks: "toks = map (\<lambda>(name, t). (name, ensure_pad_token t)) d"
    by (auto simp: model_tokenizers_def split: sum.splits)
  have keys: "fst ` set toks = fst ` set reg"
    using load_tokenizers_keys [OF d] by (force simp: toks)
  have each: "\<forall>(name, t)\<in>set toks.
        pad_token t \<noteq> None \<and>
        (\<exists>model_path t0. (name, model_path) \<in> set reg \<and> from_pretrained model_path = Inr t0 \<and>
           eos_token t = eos_token t0 \<and>
           pad_token t = (case pad_token t0 of None \<Rightarrow> eos_token t0 | Some p \<Rightarrow> Some p))"
  proof (intro ballI, clarify)
    fix name t assume "(name, t) \<in> set toks"
    then obtain t0 where in_d: "(name, t0) \<in> set d" and t: "t = ensure_pad_token t0"
      by (auto simp: toks)
    from load_tokenizers_origin [OF d in_d] obtain model_path
      where reg: "(name, model_path) \<in> set reg" and fp: "from_pretrained model_path = Inr t0"
      by auto
    have e: "pad_token t0 = None \<longrightarrow> eos_token t0 \<noteq> None" using eos reg fp by blast
    have p: "pad_token t \<noteq> None" using e by (auto simp: t ensure_pad_token_def)
    have q: "eos_token t = eos_token t0" by (simp add: t ensure_pad_token_def)
    have r: "pad_token t = (case pad_token t0 of None \<Rightarrow> eos_token t0 | Some p \<Rightarrow> Some p)"
      by (auto simp: t ensure_pad_token_def split: option.splits)
    from p q r reg fp show "pad_token t \<noteq> None \<and>
        (\<exists>model_path t0. (name, model_path) \<in> set reg \<and> from_pretrained model_path = Inr t0 \<and>
           eos_token t = eos_token t0 \<and>
           pad_token t = (case pad_token t0 of None \<Rightarrow> eos_token t0 | Some p \<Rightarrow> Some p))"
      by blast
  qed
  from keys each show ?thesis by (rule conjI)
qed

theorem every_tokenizer_has_pad_token_witness:
  "model_tokenizers example_from_pretrained models =
     Inr [(lit ''DistilGPT-2'',
           \<lparr>pad_token = Some (lit ''<|endoftext|>''), eos_token = Some (lit ''<|endoftext|>'')\<rparr>),
          (lit ''GPT-Neo-125M'',
           \<lparr>pad_token = Some (lit ''<|endoftext|>''), eos_token = Some (lit ''<|endoftext|>'')\<rparr>)] \<and>
   fst ` set [(lit ''DistilGPT-2'',
           \<lparr>pad_token = Some (lit ''<|endoftext|>''), eos_token = Some (lit ''<|endoftext|>'')\<rparr>),
          (lit ''GPT-Neo-125M'',
           \<lparr>pad_token = Some (lit ''<|endoftext|>''), eos_token = Some (lit ''<|endoftext|>'')\<rparr>)]
     = fst ` set models"
proof -
  have init: "model_tokenizers example_from_pretrained models =
     Inr [(lit ''DistilGPT-2'',
           \<lparr>pad_token = Some (lit ''<|endoftext|>''), eos_token = Some (lit ''<|endoftext|>'')\<rparr>),
          (lit ''GPT-Neo-125M'',
           \<lparr>pad_token = Some (lit ''<|endoftext|>''), eos_token = Some (lit ''<|endoftext|>'')\<rparr>)]"
    by (simp add: model_tokenizers_def models_def example_from_pretrained_def
          ensure_pad_token_def lit_def)
  have eos: "\<forall>(name, model_path)\<in>set models. \<forall>t.
      example_from_pretrained model_path = Inr t \<longrightarrow> pad_token t = None \<longrightarrow> eos_token t \<noteq> None"
    by (auto simp: example_from_pretrained_def)
  from every_tokenizer_has_pad_token [OF init eos] init show ?thesis by simp
qed

text \<open>
  C9. The scores of any string satisfy \<open>0 \<le> clarity_score \<le> length_score\<close> and
  \<open>length_score \<le> final_score \<le> 2 * length_score\<close>: the tokens counted for clarity are
  among those counted for length.
\<close>

theorem evaluate_prompt_bounds:
  "evaluate_prompt text = (length_score, clarity_score, final_score) \<Longrightarrow>
   0 \<le> clarity_score \<and> clarity_score \<le> length_score \<and>
   length_score \<le> final_score \<and> final_score \<le> 2 * length_score"
  by (auto simp: evaluate_prompt_def Let_def)

theorem evaluate_prompt_bounds_witness:
  "evaluate_prompt (lit ''Axial MRI of the brain'') = (5, 2, 7) \<and>
   (0::int) \<le> 2 \<and> (2::int) \<le> 5 \<and> (5::int) \<le> 7 \<and> (7::int) \<le> 2 * 5"
proof -
  have h: "evaluate_prompt (lit ''Axial MRI of the brain'') = (5, 2, 7)"
    by (simp add: evaluate_prompt_def str_split_def lit_def isspace_def)
  from evaluate_prompt_bounds [OF h] h show ?thesis by simp
qed

text \<open>
  C10. The registry holds exactly the two models ``DistilGPT-2'' and ``GPT-Neo-125M'',
  in that order. A comparison in which both answer calls them in that order and stores
  their entries in that order; the best model is ``GPT-Neo-125M'' only when its final
  score is strictly greater, so on a tie it is ``DistilGPT-2''.
\<close>

theorem registry_order_and_tie:
  assumes g1: "generated B rq (lit ''DistilGPT-2'') = Inr t1"
    and g2: "generated B rq (lit ''GPT-Neo-125M'') = Inr t2"
  shows "map fst models = [lit ''DistilGPT-2'', lit ''GPT-Neo-125M''] \<and>
     map fst (calls (fst (compare models B rq))) = [lit ''DistilGPT-2'', lit ''GPT-Neo-125M''] \<and>
     (\<exists>cmp. snd (compare models B rq) = Inr cmp \<and>
        map fst (results (run cmp)) = [lit ''DistilGPT-2'', lit ''GPT-Neo-125M''] \<and>
        best_model cmp =
          (if final_score_of t1 < final_score_of t2 then lit ''GPT-Neo-125M''
           else lit ''DistilGPT-2'') \<and>
        (final_score_of t1 = final_score_of t2 \<longrightarrow> best_model cmp = lit ''DistilGPT-2''))"
proof -
  have d: "distinct (map fst models)" by (simp add: models_keys models_names_differ)
  have n: "models \<noteq> []" using models_keys by auto
  have l: "length models = 2" using arg_cong [OF models_keys, of length] by simp
  have outs: "list_all2 (\<lambda>n t. generated B rq n = Inr t) (map fst models) [t1, t2]"
    using g1 g2 by (simp add: models_keys)
  have r0: "fst (models ! 0) = lit ''DistilGPT-2''" and r1: "fst (models ! 1) = lit ''GPT-Neo-125M''"
    using nth_map [of 0 models fst] nth_map [of 1 models fst] l by (simp_all add: models_keys)
  from compare_success [OF d n outs] obtain i where i: "i < length models"
    and cmp: "compare models B rq =
       (concat (map (\<lambda>n. [Template_built (instruction rq),
                            Backend_called n (instruction rq) (rq_max_length rq)]) (map fst models)),
        Inr \<lparr>run = \<lparr>results = zip (map fst models) [t1, t2],
                     model_scores = zip (map fst models) (map final_score_of [t1, t2]),
                     length_scores = map (\<lambda>t. fst (evaluate_prompt t)) [t1, t2],
                     clarity_scores = map (\<lambda>t. fst (snd (evaluate_prompt t))) [t1, t2]\<rparr>,
              best_model = fst (models ! i), best_prompt = [t1, t2] ! i\<rparr>)"
    and all: "\<forall>j<length models. final_score_of ([t1, t2] ! j) \<le> final_score_of ([t1, t2] ! i)"
    and before: "\<forall>j<i. final_score_of ([t1, t2] ! j) < final_score_of ([t1, t2] ! i)"
    by blast
  have calls: "map fst (calls (fst (compare models B rq))) = [lit ''DistilGPT-2'', lit ''GPT-Neo-125M'']"
    by (simp add: cmp models_keys)
  have best: "fst (models ! i) =
          (if final_score_of t1 < final_score_of t2 then lit ''GPT-Neo-125M''
           else lit ''DistilGPT-2'')"
  proof (cases "i = 0")
    case True
    have "final_score_of ([t1, t2] ! 1) \<le> final_score_of ([t1, t2] ! 0)"
      using all [rule_format, of 1] l True by simp
    then show ?thesis using True r0 by simp
  next
    case False
    then have i1: "i = 1" using i l by simp
    have "final_score_of ([t1, t2] ! 0) < final_score_of ([t1, t2] ! 1)"
      using before [rule_format, of 0] i1 by simp
    then show ?thesis using i1 r1 by simp
  qed
  let ?cmp = "\<lparr>run = \<lparr>results = zip (map fst models) [t1, t2],
                     model_scores = zip (map fst models) (map final_score_of [t1, t2]),
                     length_scores = map (\<lambda>t. fst (evaluate_prompt t)) [t1, t2],
                     clarity_scores = map (\<lambda>t. fst (snd (evaluate_prompt t))) [t1, t2]\<rparr>,
              best_model = fst (models ! i), best_prompt = [t1, t2] ! i\<rparr>"
  have s: "snd (compare models B rq) = Inr ?cmp" by (simp add: cmp)
  have k: "map fst (results (run ?cmp)) = [lit ''DistilGPT-2'', lit ''GPT-Neo-125M'']"
    by (simp add: models_keys)
  have b: "best_model ?cmp =
          (if final_score_of t1 < final_score_of t2 then lit ''GPT-Neo-125M''
           else lit ''DistilGPT-2'')" using best by simp
  have t: "final_score_of t1 = final_score_of t2 \<longrightarrow> best_model ?cmp = lit ''DistilGPT-2''"
    using b by simp
  have "\<exists>cmp. snd (compare models B rq) = Inr cmp \<and>
        map fst (results (run cmp)) = [lit ''DistilGPT-2'', lit ''GPT-Neo-125M''] \<and>
        best_model cmp =
          (if final_score_of t1 < final_score_of t2 then lit ''GPT-Neo-125M''
           else lit ''DistilGPT-2'') \<and>
        (final_score_of t1 = final_score_of t2 \<longrightarrow> best_model cmp = lit ''DistilGPT-2'')"
    by (rule exI [of _ ?cmp]) (intro conjI s k b t)
  with models_keys calls show ?thesis by (intro conjI)
qed

theorem registry_order_and_tie_witness:
  "final_score_of (lit ''Axial brain scan'') = final_score_of (lit ''A CT of the lungs'') \<and>
   map fst (calls (fst (compare models tie_backend example_request))) =
     [lit ''DistilGPT-2'', lit ''GPT-Neo-125M''] \<and>
   (\<exists>cmp. snd (compare models tie_backend example_request) = Inr cmp \<and>
      best_model cmp = lit ''DistilGPT-2'')"
  using registry_order_and_tie [OF gen_tie_first gen_tie_second] tie_scores
  by auto

end
